theory Spec2Isabelle
  imports Main
begin

section \<open>The result-rendering engine of payjp-cli (internal/output/formatter.go)\<close>

text \<open>
  The engine inspects its input through Go's \<^verbatim>\<open>reflect\<close> package. The embedding
  below represents a \<^verbatim>\<open>reflect.Value\<close> by a datatype with one constructor per
  group of kinds that \<^verbatim>\<open>formatFieldValue\<close> distinguishes, and the standard output
  stream by the list of things written to it.

  Scope of the data model: the records of the tabular renderer are flat (no embedded
  fields), so that \<^verbatim>\<open>FieldByName\<close> is a search through the declared fields; the
  identifier extractor is embedded a second time on structs with embedded fields, where
  \<^verbatim>\<open>FieldByName\<close> can panic. Field names and JSON tags are ASCII, so that
  \<^verbatim>\<open>strings.ToUpper\<close> and \<^verbatim>\<open>strings.ToLower\<close> act on the letters A-Z and a-z
  only. Strings are byte sequences, as Go's are: \<^verbatim>\<open>len(s)\<close> is \<^term>\<open>length s\<close> and
  \<^verbatim>\<open>s[:47]\<close> is \<^term>\<open>take 47 s\<close>.
\<close>

subsection \<open>Kinds and values\<close>

datatype int_kind = KInt | KInt8 | KInt16 | KInt32 | KInt64

datatype uint_kind = KUint | KUint8 | KUint16 | KUint32 | KUint64

datatype float_kind = KFloat32 | KFloat64

text \<open>The kinds that no case of \<^verbatim>\<open>formatFieldValue\<close> names (a pointer apart).\<close>

datatype other_kind =
  KUintptr | KComplex64 | KComplex128 | KArray | KChan | KFunc | KInterface | KUnsafePointer

datatype kind =
  KInvalid | KBool | KSigned int_kind | KUnsigned uint_kind | KFloat float_kind
  | KString | KPtr | KStruct | KMap | KSlice | KOther other_kind

text \<open>
  \<^verbatim>\<open>reflect.StructField\<close>, with the parts the engine reads: the name, the package
  path (empty exactly for an exported field) and the value of \<^verbatim>\<open>Tag.Get("json")\<close>.
\<close>

record StructField =
  Name :: string
  PkgPath :: string
  JsonTag :: string

text \<open>
  The location of a \<^verbatim>\<open>time.Time\<close>: UTC, the process-wide \<^verbatim>\<open>time.Local\<close>, or a
  zone given by its offset (seconds east of UTC) at the instant in question.
\<close>

datatype location = UTC | Local | Fixed int

record time =
  unix_sec :: int
  loc :: location

text \<open>
  A \<^verbatim>\<open>reflect.Value\<close>.
  \<^item> \<open>VInvalid\<close> is the zero Value (of a nil interface, of \<^verbatim>\<open>Elem\<close> on a nil pointer,
    of \<^verbatim>\<open>FieldByName\<close> on a missing name).
  \<^item> \<open>VInt k n\<close>: \<open>n\<close> is \<^verbatim>\<open>v.Int()\<close>; \<open>VUint k n\<close>: \<open>n\<close> is \<^verbatim>\<open>v.Uint()\<close>.
  \<^item> \<open>VFloat k txt\<close>: floating point is not modelled; the value is carried by the text
    that \<^verbatim>\<open>fmt.Sprintf("%.2f", v.Float())\<close> yields for it.
  \<^item> \<open>VPtr txt p\<close>: \<open>p\<close> is the pointee (\<open>None\<close> for nil), \<open>txt\<close> the text of
    \<^verbatim>\<open>fmt.Sprintf("%v", v.Interface())\<close> for the pointer itself.
  \<^item> \<open>VStruct t fs\<close>: the declared fields with their values, in declaration order;
    \<open>t\<close> is \<open>Some\<close> exactly when the value is a \<^verbatim>\<open>time.Time\<close>, that is, when the
    type assertion \<^verbatim>\<open>v.Interface().(time.Time)\<close> succeeds.
  \<^item> \<open>VOther k txt\<close>: a value of any other kind, carried by the text of
    \<^verbatim>\<open>fmt.Sprintf("%v", v.Interface())\<close>.
\<close>

datatype gvalue =
    VInvalid
  | VBool bool
  | VInt int_kind int
  | VUint uint_kind nat
  | VFloat float_kind string
  | VString string
  | VPtr string "gvalue option"
  | VStruct "time option" "(StructField \<times> gvalue) list"
  | VMap "(gvalue \<times> gvalue) list"
  | VSlice "gvalue list"
  | VOther other_kind string

fun Kind :: "gvalue \<Rightarrow> kind" where
  "Kind VInvalid = KInvalid"
| "Kind (VBool b) = KBool"
| "Kind (VInt k n) = KSigned k"
| "Kind (VUint k n) = KUnsigned k"
| "Kind (VFloat k txt) = KFloat k"
| "Kind (VString s) = KString"
| "Kind (VPtr txt p) = KPtr"
| "Kind (VStruct t fs) = KStruct"
| "Kind (VMap kvs) = KMap"
| "Kind (VSlice xs) = KSlice"
| "Kind (VOther k txt) = KOther k"

text \<open>\<^verbatim>\<open>Kind.String()\<close>, which \<^verbatim>\<open>%v\<close> prints for a kind.\<close>

fun kind_name :: "kind \<Rightarrow> string" where
  "kind_name KInvalid = ''invalid''"
| "kind_name KBool = ''bool''"
| "kind_name (KSigned KInt) = ''int''"
| "kind_name (KSigned KInt8) = ''int8''"
| "kind_name (KSigned KInt16) = ''int16''"
| "kind_name (KSigned KInt32) = ''int32''"
| "kind_name (KSigned KInt64) = ''int64''"
| "kind_name (KUnsigned KUint) = ''uint''"
| "kind_name (KUnsigned KUint8) = ''uint8''"
| "kind_name (KUnsigned KUint16) = ''uint16''"
| "kind_name (KUnsigned KUint32) = ''uint32''"
| "kind_name (KUnsigned KUint64) = ''uint64''"
| "kind_name (KFloat KFloat32) = ''float32''"
| "kind_name (KFloat KFloat64) = ''float64''"
| "kind_name KString = ''string''"
| "kind_name KPtr = ''ptr''"
| "kind_name KStruct = ''struct''"
| "kind_name KMap = ''map''"
| "kind_name KSlice = ''slice''"
| "kind_name (KOther KUintptr) = ''uintptr''"
| "kind_name (KOther KComplex64) = ''complex64''"
| "kind_name (KOther KComplex128) = ''complex128''"
| "kind_name (KOther KArray) = ''array''"
| "kind_name (KOther KChan) = ''chan''"
| "kind_name (KOther KFunc) = ''func''"
| "kind_name (KOther KInterface) = ''interface''"
| "kind_name (KOther KUnsafePointer) = ''unsafe.Pointer''"

text \<open>
  \<^verbatim>\<open>if v.Kind() == reflect.Ptr { v = v.Elem() }\<close>, the step that every entry point
  takes; \<^verbatim>\<open>Elem\<close> of a nil pointer is the zero Value.
\<close>

fun indirect :: "gvalue \<Rightarrow> gvalue" where
  "indirect (VPtr txt None) = VInvalid"
| "indirect (VPtr txt (Some v)) = v"
| "indirect v = v"

subsection \<open>Decimal rendering (\<^verbatim>\<open>%d\<close>)\<close>

definition digit_char :: "nat \<Rightarrow> char" where
  "digit_char n = ''0123456789'' ! n"

fun digits :: "nat \<Rightarrow> string" where
  "digits n = (if n < 10 then [digit_char n] else digits (n div 10) @ [digit_char (n mod 10)])"

declare digits.simps [simp del]

definition fmt_d :: "int \<Rightarrow> string" where
  "fmt_d x = (if x < 0 then CHR ''-'' # digits (nat (- x)) else digits (nat x))"

subsection \<open>Time formatting (\<^verbatim>\<open>time.Unix(sec, 0).Format("2006-01-02 15:04:05")\<close>)\<close>

text \<open>
  The local time zone is state of the process (\<^verbatim>\<open>time.Local\<close>, set from the
  environment): it is a parameter of the model, the function from a Unix instant to the
  offset in seconds east of UTC in force at that instant.
\<close>

type_synonym zone = "int \<Rightarrow> int"

definition zone_utc :: zone where
  "zone_utc t = 0"

definition zone_jst :: zone where
  "zone_jst t = 32400"

definition isLeap :: "int \<Rightarrow> bool" where
  "isLeap y = (y mod 4 = 0 \<and> (y mod 100 \<noteq> 0 \<or> y mod 400 = 0))"

text \<open>
  The proleptic Gregorian calendar, computed as Go's \<^verbatim>\<open>time\<close> package does: from the
  number of days since 1 January of year 1, cut off 400-year, 100-year, 4-year and
  1-year cycles. The result is the year and the day within it (from 0).
\<close>

definition year_day :: "int \<Rightarrow> int \<times> int" where
  "year_day d0 =
     (let n400 = d0 div 146097; d1 = d0 mod 146097;
          c100 = d1 div 36524; n100 = c100 - c100 div 4; d2 = d1 - 36524 * n100;
          n4 = d2 div 1461; d3 = d2 - 1461 * n4;
          c1 = d3 div 365; n1 = c1 - c1 div 4; d4 = d3 - 365 * n1
      in (1 + 400 * n400 + 100 * n100 + 4 * n4 + n1, d4))"

definition month_lengths :: "bool \<Rightarrow> int list" where
  "month_lengths leap = [31, if leap then 29 else 28, 31, 30, 31, 30, 31, 31, 30, 31, 30, 31]"

text \<open>Walk the months: the month (counted from \<open>m\<close>) and the day of the month (from 1).\<close>

fun month_day :: "int list \<Rightarrow> int \<Rightarrow> int \<Rightarrow> int \<times> int" where
  "month_day [] m d = (m, d + 1)"
| "month_day (l # ls) m d = (if d < l then (m, d + 1) else month_day ls (m + 1) (d - l))"

text \<open>\<^verbatim>\<open>appendInt\<close> of package time: the decimal digits, zero-padded to a width.\<close>

definition appendInt :: "int \<Rightarrow> nat \<Rightarrow> string" where
  "appendInt x w =
     (let ds = digits (nat \<bar>x\<bar>)
      in (if x < 0 then ''-'' else '''') @ replicate (w - length ds) (CHR ''0'') @ ds)"

text \<open>
  The layout \<^verbatim>\<open>"2006-01-02 15:04:05"\<close> applied to the instant \<open>sec\<close> (Unix seconds)
  shown in a zone that is \<open>off\<close> seconds east of UTC.
\<close>

definition format_time :: "int \<Rightarrow> int \<Rightarrow> string" where
  "format_time off sec =
     (let t = sec + off;
          days = t div 86400; sod = t mod 86400;
          (y, yd) = year_day (days + 719162);
          (m, d) = month_day (month_lengths (isLeap y)) 1 yd
      in appendInt y 4 @ ''-'' @ appendInt m 2 @ ''-'' @ appendInt d 2 @ '' ''
         @ appendInt (sod div 3600) 2 @ '':'' @ appendInt (sod mod 3600 div 60) 2
         @ '':'' @ appendInt (sod mod 60) 2)"

definition loc_offset :: "zone \<Rightarrow> time \<Rightarrow> int" where
  "loc_offset z t = (case loc t of UTC \<Rightarrow> 0 | Local \<Rightarrow> z (unix_sec t) | Fixed off \<Rightarrow> off)"

subsection \<open>The Value Classifier\<close>

text \<open>The \<^verbatim>\<open>switch v.Kind()\<close> of \<^verbatim>\<open>formatFieldValue\<close>, after the pointer step.\<close>

fun formatKind :: "zone \<Rightarrow> gvalue \<Rightarrow> string" where
  "formatKind z (VBool b) = (if b then ''true'' else ''false'')"
| "formatKind z (VInt k n) =
     (if n > 1000000000 \<and> n < 2000000000 then format_time (z n) n else fmt_d n)"
| "formatKind z (VUint k n) = fmt_d (int n)"
| "formatKind z (VFloat k txt) = txt"
| "formatKind z (VString s) = (if length s > 50 then take 47 s @ ''...'' else s)"
| "formatKind z (VStruct (Some t) fs) = format_time (loc_offset z t) (unix_sec t)"
| "formatKind z (VStruct None fs) = ''{...}''"
| "formatKind z (VMap kvs) =
     (if length kvs = 0 then '''' else ''['' @ fmt_d (int (length kvs)) @ '' items]'')"
| "formatKind z (VSlice xs) =
     (if length xs = 0 then '''' else ''['' @ fmt_d (int (length xs)) @ '' items]'')"
| "formatKind z (VPtr txt p) = txt"
| "formatKind z (VOther k txt) = txt"
| "formatKind z VInvalid = ''<invalid reflect.Value>''"

text \<open>
  The last equation is never reached: \<^verbatim>\<open>formatFieldValue\<close> returns before the switch
  on the zero Value, and \<^verbatim>\<open>Elem\<close> of a non-nil pointer is valid.
\<close>

fun formatFieldValue :: "zone \<Rightarrow> gvalue \<Rightarrow> string" where
  "formatFieldValue z VInvalid = ''''"
| "formatFieldValue z (VPtr txt None) = ''''"
| "formatFieldValue z (VPtr txt (Some v)) = formatKind z v"
| "formatFieldValue z v = formatKind z v"

subsection \<open>Field names\<close>

definition IsExported :: "StructField \<Rightarrow> bool" where
  "IsExported f = (PkgPath f = '''')"

definition is_upper :: "char \<Rightarrow> bool" where
  "is_upper c = (65 \<le> (of_char c :: nat) \<and> (of_char c :: nat) \<le> 90)"

definition is_lower :: "char \<Rightarrow> bool" where
  "is_lower c = (97 \<le> (of_char c :: nat) \<and> (of_char c :: nat) \<le> 122)"

definition to_lower :: "char \<Rightarrow> char" where
  "to_lower c = (if is_upper c then char_of ((of_char c :: nat) + 32) else c)"

definition to_upper :: "char \<Rightarrow> char" where
  "to_upper c = (if is_lower c then char_of ((of_char c :: nat) - 32) else c)"

definition ToLower :: "string \<Rightarrow> string" where
  "ToLower s = map to_lower s"

definition ToUpper :: "string \<Rightarrow> string" where
  "ToUpper s = map to_upper s"

text \<open>The loop of \<^verbatim>\<open>toSnakeCase\<close>; \<open>i\<close> is the index of the next character.\<close>

fun snake_loop :: "nat \<Rightarrow> string \<Rightarrow> string" where
  "snake_loop i [] = []"
| "snake_loop i (r # rs) =
     (if i > 0 \<and> is_upper r then CHR ''_'' # r # snake_loop (i + 1) rs
      else r # snake_loop (i + 1) rs)"

definition toSnakeCase :: "string \<Rightarrow> string" where
  "toSnakeCase s = ToLower (snake_loop 0 s)"

text \<open>\<^verbatim>\<open>strings.Split(tag, ",")[0]\<close> is the tag up to its first comma.\<close>

definition getFieldName :: "StructField \<Rightarrow> string" where
  "getFieldName field =
     (let tag = JsonTag field; part0 = takeWhile (\<lambda>c. c \<noteq> CHR '','') tag
      in if tag \<noteq> '''' \<and> part0 \<noteq> '''' \<and> part0 \<noteq> ''-'' then part0
         else toSnakeCase (Name field))"

subsection \<open>Struct access\<close>

type_synonym fields = "(StructField \<times> gvalue) list"

fun fields_of :: "gvalue \<Rightarrow> fields" where
  "fields_of (VStruct t fs) = fs"
| "fields_of v = []"

text \<open>\<^verbatim>\<open>t.FieldByName(name)\<close> on a struct type: the descriptor, if the name is declared.\<close>

fun TypeFieldByName :: "fields \<Rightarrow> string \<Rightarrow> StructField option" where
  "TypeFieldByName [] name = None"
| "TypeFieldByName ((f, x) # fs) name =
     (if Name f = name then Some f else TypeFieldByName fs name)"

text \<open>
  \<^verbatim>\<open>v.FieldByName(name)\<close> on a struct value: the field's value, or the zero Value
  if the name is not declared.
\<close>

fun ValueFieldByName :: "fields \<Rightarrow> string \<Rightarrow> gvalue" where
  "ValueFieldByName [] name = VInvalid"
| "ValueFieldByName ((f, x) # fs) name =
     (if Name f = name then x else ValueFieldByName fs name)"

definition IsValid :: "gvalue \<Rightarrow> bool" where
  "IsValid v = (Kind v \<noteq> KInvalid)"

fun String_of :: "gvalue \<Rightarrow> string" where
  "String_of (VString s) = s"
| "String_of v = ''<'' @ kind_name (Kind v) @ '' Value>''"

subsection \<open>The Field Selector\<close>

definition commonFields :: "string list" where
  "commonFields = [''ID'', ''Amount'', ''Currency'', ''Status'', ''Paid'', ''Captured'',
     ''Refunded'', ''Email'', ''Description'', ''Name'', ''Interval'', ''CreatedAt'', ''Created'']"

text \<open>The first loop of \<^verbatim>\<open>getTableHeaders\<close>, over the priority list.\<close>

fun common_loop ::
  "fields \<Rightarrow> string list \<Rightarrow> string list \<times> string list \<Rightarrow> string list \<times> string list" where
  "common_loop fs [] (headers, keys) = (headers, keys)"
| "common_loop fs (fieldName # rest) (headers, keys) =
     (case TypeFieldByName fs fieldName of
        Some field \<Rightarrow>
          if IsExported field
          then common_loop fs rest
                 (headers @ [ToUpper (getFieldName field)], keys @ [fieldName])
          else common_loop fs rest (headers, keys)
      | None \<Rightarrow> common_loop fs rest (headers, keys))"

text \<open>The second loop, \<^verbatim>\<open>for i := 0; i < t.NumField() && i < 6; i++\<close>.\<close>

function first_loop ::
  "fields \<Rightarrow> nat \<Rightarrow> string list \<times> string list \<Rightarrow> string list \<times> string list" where
  "first_loop fs i (headers, keys) =
     (if i < length fs \<and> i < 6
      then (let field = fst (fs ! i)
            in if IsExported field
               then first_loop fs (i + 1)
                      (headers @ [ToUpper (getFieldName field)], keys @ [Name field])
               else first_loop fs (i + 1) (headers, keys))
      else (headers, keys))"
  by pat_completeness auto
termination
  by (relation "measure (\<lambda>(fs, i, acc). 6 - i)") auto

declare first_loop.simps [simp del]

definition getTableHeaders :: "gvalue \<Rightarrow> string list \<times> string list" where
  "getTableHeaders v =
     (if Kind v \<noteq> KStruct then ([], [])
      else (let t = fields_of v;
                (headers, keys) = common_loop t commonFields ([], [])
            in if length headers = 0 then first_loop t 0 (headers, keys)
               else (headers, keys)))"

subsection \<open>Output and failure\<close>

text \<open>
  What a renderer writes to standard output: a line (\<^verbatim>\<open>fmt.Println\<close>,
  \<^verbatim>\<open>fmt.Printf\<close> of one line), or a table handed to the tablewriter library (its
  header and its rows, as given to \<^verbatim>\<open>SetHeader\<close> and \<^verbatim>\<open>Append\<close>) and rendered.
\<close>

datatype out_event = Println string | Render "string list" "string list list"

text \<open>
  A render call fails with the error it returns, or by a run-time panic of
  \<^verbatim>\<open>reflect\<close> (\<^verbatim>\<open>FieldByName\<close> on a value that is not a struct).
\<close>

datatype failure = Error string | Panic

subsection \<open>The tabular renderer\<close>

text \<open>The loop of \<^verbatim>\<open>getTableRow\<close>.\<close>

fun row_loop :: "zone \<Rightarrow> gvalue \<Rightarrow> string list \<Rightarrow> string list \<Rightarrow> failure + string list" where
  "row_loop z v [] row = Inr row"
| "row_loop z v (key # keys) row =
     (if Kind v \<noteq> KStruct then Inl Panic
      else (let field = ValueFieldByName (fields_of v) key
            in if IsValid field then row_loop z v keys (row @ [formatFieldValue z field])
               else row_loop z v keys (row @ [''''])))"

definition getTableRow :: "zone \<Rightarrow> gvalue \<Rightarrow> string list \<Rightarrow> failure + string list" where
  "getTableRow z v keys = row_loop z v keys []"

text \<open>The row loop of \<^verbatim>\<open>formatSlice\<close>, over the elements from index 0 on.\<close>

fun append_rows ::
  "zone \<Rightarrow> gvalue list \<Rightarrow> string list \<Rightarrow> string list list \<Rightarrow> failure + string list list" where
  "append_rows z [] keys rows = Inr rows"
| "append_rows z (item # items) keys rows =
     (case getTableRow z (indirect item) keys of
        Inl e \<Rightarrow> Inl e
      | Inr row \<Rightarrow> append_rows z items keys (rows @ [row]))"

fun elems_of :: "gvalue \<Rightarrow> gvalue list" where
  "elems_of (VSlice xs) = xs"
| "elems_of v = []"

definition formatSlice :: "zone \<Rightarrow> gvalue \<Rightarrow> failure + out_event list" where
  "formatSlice z v =
     (let xs = elems_of v
      in if length xs = 0 then Inr [Println ''No items found.'']
         else (let first = indirect (xs ! 0);
                   (headers, keys) = getTableHeaders first
               in case append_rows z xs keys [] of
                    Inl e \<Rightarrow> Inl e
                  | Inr rows \<Rightarrow>
                      Inr [Render headers rows,
                           Println (''Total: '' @ fmt_d (int (length xs)) @ '' items'')]))"

text \<open>The field loop of \<^verbatim>\<open>formatSingle\<close>: unexported fields are skipped.\<close>

fun detail_rows :: "zone \<Rightarrow> fields \<Rightarrow> string list list \<Rightarrow> string list list" where
  "detail_rows z [] rows = rows"
| "detail_rows z ((field, value) # fs) rows =
     (if \<not> IsExported field then detail_rows z fs rows
      else detail_rows z fs (rows @ [[getFieldName field, formatFieldValue z value]]))"

definition formatSingle :: "zone \<Rightarrow> gvalue \<Rightarrow> failure + out_event list" where
  "formatSingle z v0 =
     (let v = indirect v0
      in if Kind v \<noteq> KStruct then Inl (Error (''expected struct, got '' @ kind_name (Kind v)))
         else Inr [Render [''FIELD'', ''VALUE''] (detail_rows z (fields_of v) [])])"

text \<open>\<^verbatim>\<open>TableFormatter.Format\<close>.\<close>

definition TableFormat :: "zone \<Rightarrow> gvalue \<Rightarrow> failure + out_event list" where
  "TableFormat z data =
     (let v = indirect data
      in if Kind v = KSlice then formatSlice z v else formatSingle z v)"

subsection \<open>The identifier-only renderer\<close>

text \<open>The loop of \<^verbatim>\<open>extractID\<close> over the candidate names.\<close>

fun id_loop :: "fields \<Rightarrow> string list \<Rightarrow> string" where
  "id_loop fs [] = ''''"
| "id_loop fs (fieldName # rest) =
     (let field = ValueFieldByName fs fieldName
      in if IsValid field \<and> Kind field = KString then String_of field
         else id_loop fs rest)"

definition extractID :: "gvalue \<Rightarrow> string" where
  "extractID data =
     (let v = indirect data
      in if Kind v \<noteq> KStruct then ''''
         else id_loop (fields_of v) [''ID'', ''Id'', ''id''])"

text \<open>\<^verbatim>\<open>QuietFormatter.Format\<close>.\<close>

definition QuietFormat :: "gvalue \<Rightarrow> failure + out_event list" where
  "QuietFormat data =
     (let id = extractID data
      in if id \<noteq> '''' then Inr [Println id] else Inr [])"

subsection \<open>The Dispatcher\<close>

datatype formatter = JSONFormatter | YAMLFormatter | QuietFormatter | TableFormatter

definition NewFormatter :: "string \<Rightarrow> formatter" where
  "NewFormatter format =
     (if format = ''json'' then JSONFormatter
      else if format = ''yaml'' then YAMLFormatter
      else if format = ''quiet'' then QuietFormatter
      else TableFormatter)"

subsection \<open>The identifier extractor on structs with embedded fields\<close>

text \<open>
  \<^verbatim>\<open>reflect\<close>'s \<^verbatim>\<open>FieldByName\<close> also finds a field promoted from an embedded struct,
  and \<^verbatim>\<open>Value.FieldByName\<close> panics when the way to a promoted field leads through a
  nil embedded pointer. The values below add what that takes to the flat records above:
  a struct whose fields say whether they are embedded, and a nil pointer that knows its
  type. A flat value \<open>g\<close> is the value \<open>ELeaf g\<close>. Types are finite trees: a struct
  type that embeds a pointer to itself is not among them.
\<close>

datatype rtype = TOther | TPtr rtype | TStruct "(string \<times> bool \<times> rtype) list"

datatype evalue =
    ELeaf gvalue
  | EStruct "(string \<times> bool \<times> evalue) list"
  | EPtr evalue
  | ENil rtype

fun flat_type :: "gvalue \<Rightarrow> rtype" where
  "flat_type (VStruct t fs) = TStruct (map (\<lambda>(f, x). (Name f, False, flat_type x)) fs)"
| "flat_type (VPtr txt (Some v)) = TPtr (flat_type v)"
| "flat_type v = TOther"

text \<open>\<^verbatim>\<open>v.Type()\<close>: for each field of a struct its name, whether it is embedded, its type.\<close>

primrec type_of :: "evalue \<Rightarrow> rtype" where
  "type_of (ELeaf g) = flat_type g"
| "type_of (EStruct fs) = TStruct (map (map_prod id (map_prod id type_of)) fs)"
| "type_of (EPtr v) = TPtr (type_of v)"
| "type_of (ENil t) = TPtr t"

fun Kind_e :: "evalue \<Rightarrow> kind" where
  "Kind_e (ELeaf g) = Kind g"
| "Kind_e (EStruct fs) = KStruct"
| "Kind_e (EPtr v) = KPtr"
| "Kind_e (ENil t) = KPtr"

fun efields :: "evalue \<Rightarrow> (string \<times> bool \<times> evalue) list" where
  "efields (ELeaf (VStruct t fs)) = map (\<lambda>(f, x). (Name f, False, ELeaf x)) fs"
| "efields (EStruct fs) = fs"
| "efields v = []"

text \<open>\<^verbatim>\<open>v.Elem()\<close> of a pointer, \<open>None\<close> when it is nil.\<close>

fun elem_e :: "evalue \<Rightarrow> evalue option" where
  "elem_e (EPtr v) = Some v"
| "elem_e (ELeaf (VPtr txt (Some g))) = Some (ELeaf g)"
| "elem_e v = None"

fun indirect_e :: "evalue \<Rightarrow> evalue" where
  "indirect_e (EPtr v) = v"
| "indirect_e (ENil t) = ELeaf VInvalid"
| "indirect_e (ELeaf g) = ELeaf (indirect g)"
| "indirect_e v = v"

fun struct_fields :: "rtype \<Rightarrow> (string \<times> bool \<times> rtype) list" where
  "struct_fields (TStruct fs) = fs"
| "struct_fields t = []"

text \<open>
  The struct type that an embedded field of type \<open>T\<close> or \<open>*T\<close> brings in, if \<open>T\<close> is a
  struct type.
\<close>

fun embedded_struct :: "bool \<Rightarrow> rtype \<Rightarrow> rtype option" where
  "embedded_struct True (TStruct fs) = Some (TStruct fs)"
| "embedded_struct True (TPtr (TStruct fs)) = Some (TStruct fs)"
| "embedded_struct e t = None"

text \<open>
  The index paths of the fields called \<open>name\<close> that lie \<open>d\<close> embeddings below a struct
  type: the matches that the breadth-first search of \<^verbatim>\<open>FieldByNameFunc\<close> meets at
  depth \<open>d\<close>.
\<close>

fun promoted :: "nat \<Rightarrow> rtype \<Rightarrow> string \<Rightarrow> nat list list" where
  "promoted 0 t name =
     map (\<lambda>(i, n, e, ty). [i]) (filter (\<lambda>(i, n, e, ty). n = name) (enumerate 0 (struct_fields t)))"
| "promoted (Suc d) t name =
     concat (map (\<lambda>(i, n, e, ty).
                    case embedded_struct e ty of
                      None \<Rightarrow> []
                    | Some s \<Rightarrow> map (\<lambda>p. i # p) (promoted d s name))
                 (enumerate 0 (struct_fields t)))"

fun height :: "rtype \<Rightarrow> nat" where
  "height TOther = 0"
| "height (TPtr t) = height t"
| "height (TStruct fs) = Suc (foldr max (map (\<lambda>(n, e, ty). height ty) fs) 0)"

fun index_of :: "string \<Rightarrow> (string \<times> 'a) list \<Rightarrow> nat option" where
  "index_of name [] = None"
| "index_of name ((n, x) # fs) =
     (if n = name then Some 0 else map_option Suc (index_of name fs))"

text \<open>
  \<^verbatim>\<open>t.FieldByName(name)\<close> with embedded fields, as an index path: the first field of
  that name at the top level; failing that, the field at the shallowest depth where the
  name occurs, provided it occurs once there (two matches at one depth annihilate each
  other and hide every deeper one).
\<close>

definition FieldByName_emb :: "rtype \<Rightarrow> string \<Rightarrow> nat list option" where
  "FieldByName_emb t name =
     (case index_of name (struct_fields t) of
        Some i \<Rightarrow> Some [i]
      | None \<Rightarrow>
          (case filter (\<lambda>ps. ps \<noteq> []) (map (\<lambda>d. promoted d t name) [1..<Suc (height t)]) of
             [] \<Rightarrow> None
           | ps # rest \<Rightarrow> (case ps of [p] \<Rightarrow> Some p | _ \<Rightarrow> None)))"

text \<open>\<^verbatim>\<open>v.Field(i)\<close>: panics unless \<open>v\<close> is a struct with more than \<open>i\<close> fields.\<close>

definition Field_e :: "evalue \<Rightarrow> nat \<Rightarrow> failure + evalue" where
  "Field_e v i =
     (if Kind_e v \<noteq> KStruct \<or> i \<ge> length (efields v) then Inl Panic
      else Inr (snd (snd (efields v ! i))))"

text \<open>
  The loop of \<^verbatim>\<open>v.FieldByIndex(index)\<close>; \<open>i\<close> is the position in the index. From the
  second step on, a pointer to a struct is followed, and a nil one is a panic
  (\<^verbatim>\<open>reflect: indirection through nil pointer to embedded struct\<close>).
\<close>

fun index_loop :: "nat \<Rightarrow> evalue \<Rightarrow> nat list \<Rightarrow> failure + evalue" where
  "index_loop i v [] = Inr v"
| "index_loop i v (x # rest) =
     (if i > 0 \<and> Kind_e v = KPtr \<and> embedded_struct True (type_of v) \<noteq> None
      then (case elem_e v of
              None \<Rightarrow> Inl Panic
            | Some w \<Rightarrow>
                (case Field_e w x of Inl e \<Rightarrow> Inl e | Inr f \<Rightarrow> index_loop (i + 1) f rest))
      else (case Field_e v x of Inl e \<Rightarrow> Inl e | Inr f \<Rightarrow> index_loop (i + 1) f rest))"

definition FieldByIndex :: "evalue \<Rightarrow> nat list \<Rightarrow> failure + evalue" where
  "FieldByIndex v index =
     (if length index = 1 then Field_e v (hd index)
      else if Kind_e v \<noteq> KStruct then Inl Panic
      else index_loop 0 v index)"

text \<open>\<^verbatim>\<open>v.FieldByName(name)\<close>: the zero Value when the type has no such field.\<close>

definition ValueFieldByName_emb :: "evalue \<Rightarrow> string \<Rightarrow> failure + evalue" where
  "ValueFieldByName_emb v name =
     (if Kind_e v \<noteq> KStruct then Inl Panic
      else (case FieldByName_emb (type_of v) name of
              Some index \<Rightarrow> FieldByIndex v index
            | None \<Rightarrow> Inr (ELeaf VInvalid)))"

fun String_e :: "evalue \<Rightarrow> string" where
  "String_e (ELeaf g) = String_of g"
| "String_e v = ''<'' @ kind_name (Kind_e v) @ '' Value>''"

text \<open>\<^verbatim>\<open>extractID\<close> and \<^verbatim>\<open>QuietFormatter.Format\<close> once more, on these values.\<close>

fun id_loop_emb :: "evalue \<Rightarrow> string list \<Rightarrow> failure + string" where
  "id_loop_emb v [] = Inr ''''"
| "id_loop_emb v (fieldName # rest) =
     (case ValueFieldByName_emb v fieldName of
        Inl e \<Rightarrow> Inl e
      | Inr field \<Rightarrow>
          if Kind_e field \<noteq> KInvalid \<and> Kind_e field = KString then Inr (String_e field)
          else id_loop_emb v rest)"

definition extractID_emb :: "evalue \<Rightarrow> failure + string" where
  "extractID_emb data =
     (let v = indirect_e data
      in if Kind_e v \<noteq> KStruct then Inr ''''
         else id_loop_emb v [''ID'', ''Id'', ''id''])"

definition QuietFormat_emb :: "evalue \<Rightarrow> failure + out_event list" where
  "QuietFormat_emb data =
     (case extractID_emb data of
        Inl e \<Rightarrow> Inl e
      | Inr ident \<Rightarrow> if ident \<noteq> '''' then Inr [Println ident] else Inr [])"

section \<open>Vocabulary of the specification\<close>

subsection \<open>Display texts\<close>

text \<open>
  A text has the fixed format \<^verbatim>\<open>YYYY-MM-DD HH:MM:SS\<close> when it matches the layout
  below, in which \<open>d\<close> stands for a decimal digit. A plain base-10 integer is an
  optional minus sign and at least one digit.
\<close>

definition is_digit :: "char \<Rightarrow> bool" where
  "is_digit c = (c \<in> set ''0123456789'')"

fun matches :: "string \<Rightarrow> string \<Rightarrow> bool" where
  "matches [] [] = True"
| "matches (p # ps) (c # cs) = ((if p = CHR ''d'' then is_digit c else c = p) \<and> matches ps cs)"
| "matches ps cs = False"

definition is_timestamp_text :: "string \<Rightarrow> bool" where
  "is_timestamp_text s = matches ''dddd-dd-dd dd:dd:dd'' s"

fun is_plain_int_text :: "string \<Rightarrow> bool" where
  "is_plain_int_text [] = False"
| "is_plain_int_text (c # cs) =
     (if c = CHR ''-'' then cs \<noteq> [] \<and> list_all is_digit cs else list_all is_digit (c # cs))"

subsection \<open>Records, collections and their fields\<close>

text \<open>
  A record is a struct, or a non-nil pointer to one; a collection of records is a slice
  (or a pointer to a slice) whose elements are records.
\<close>

definition is_record :: "gvalue \<Rightarrow> bool" where
  "is_record v = (Kind (indirect v) = KStruct)"

definition is_record_collection :: "gvalue \<Rightarrow> bool" where
  "is_record_collection d =
     (Kind (indirect d) = KSlice \<and> list_all is_record (elems_of (indirect d)))"


definition declares :: "fields \<Rightarrow> string \<Rightarrow> bool" where
  "declares fs name = (name \<in> set (map (\<lambda>(f, x). Name f) fs))"

definition no_common_fields :: "fields \<Rightarrow> bool" where
  "no_common_fields fs = list_all (\<lambda>name. \<not> declares fs name) commonFields"

text \<open>The names of the first \<open>n\<close> declared fields, and the exported ones among them.\<close>

definition declared_names :: "nat \<Rightarrow> fields \<Rightarrow> string list" where
  "declared_names n fs = map (\<lambda>(f, x). Name f) (take n fs)"

definition exported_fields :: "nat \<Rightarrow> fields \<Rightarrow> StructField list" where
  "exported_fields n fs = filter IsExported (map fst (take n fs))"




subsection \<open>Dependence on the local time zone\<close>

text \<open>
  The Unix instants at which the Value Classifier consults the local time zone for a
  value: a signed integer inside the timestamp window, and a \<^verbatim>\<open>time.Time\<close> whose
  location is \<^verbatim>\<open>time.Local\<close>.
\<close>

fun kind_instants :: "gvalue \<Rightarrow> int list" where
  "kind_instants (VInt k n) = (if n > 1000000000 \<and> n < 2000000000 then [n] else [])"
| "kind_instants (VStruct (Some t) fs) = (case loc t of Local \<Rightarrow> [unix_sec t] | _ \<Rightarrow> [])"
| "kind_instants v = []"

fun local_instants :: "gvalue \<Rightarrow> int list" where
  "local_instants (VPtr txt (Some v)) = kind_instants v"
| "local_instants v = kind_instants v"

definition zones_agree :: "zone \<Rightarrow> zone \<Rightarrow> int list \<Rightarrow> bool" where
  "zones_agree z z' ts = list_all (\<lambda>t. z t = z' t) ts"

subsection \<open>Characters of UTF-8 text\<close>




subsection \<open>Embedded pointers\<close>

text \<open>A value without a nil pointer among its embedded fields, at any depth.\<close>

fun no_nil :: "evalue \<Rightarrow> bool" where
  "no_nil (ELeaf g) = True"
| "no_nil (EStruct fs) = list_all (\<lambda>p. \<not> fst (snd p) \<or> no_nil (snd (snd p))) fs"
| "no_nil (EPtr v) = no_nil v"
| "no_nil (ENil t) = False"

subsection \<open>Sample records\<close>

definition exported :: "string \<Rightarrow> string \<Rightarrow> StructField" where
  "exported name tag = \<lparr>Name = name, PkgPath = '''', JsonTag = tag\<rparr>"

definition unexported :: "string \<Rightarrow> StructField" where
  "unexported name = \<lparr>Name = name, PkgPath = ''payjp'', JsonTag = ''''\<rparr>"

definition charge :: "string \<Rightarrow> int \<Rightarrow> string \<Rightarrow> gvalue" where
  "charge ident amount status =
     VStruct None
       [(exported ''ID'' ''id'', VString ident),
        (exported ''Amount'' ''amount'', VInt KInt amount),
        (exported ''Currency'' ''currency'', VString ''jpy''),
        (exported ''Status'' ''status'', VString status)]"

definition two_charges :: gvalue where
  "two_charges =
     VSlice [VPtr ''0xc000010000'' (Some (charge ''ch_1'' 1000 ''succeeded'')),
             VPtr ''0xc000010080'' (Some (charge ''ch_2'' 2000 ''failed''))]"

text \<open>A record without any of the well-known names, whose first field is unexported.\<close>

definition listing_fields :: fields where
  "listing_fields =
     [(unexported ''service'', VPtr ''0xc000020000'' None),
      (exported ''Count'' ''count'', VInt KInt 3),
      (exported ''HasMore'' ''has_more'', VBool False),
      (exported ''URL'' ''url'', VString ''/v1/charges'')]"

definition numbers :: gvalue where
  "numbers = VSlice [VInt KInt 1, VInt KInt 2]"

text \<open>
  \<^verbatim>\<open>type Base struct { ID string }\<close> and \<^verbatim>\<open>type X struct { *Base; Note string }\<close>:
  the value \<^verbatim>\<open>X{}\<close>, whose embedded pointer is nil, and a value with the pointer set.
\<close>

definition base_type :: rtype where
  "base_type = TStruct [(''ID'', False, TOther)]"

definition nil_base_record :: evalue where
  "nil_base_record = EStruct [(''Base'', True, ENil base_type), (''Note'', False, ELeaf (VString ''''))]"

definition set_base_record :: evalue where
  "set_base_record =
     EStruct [(''Base'', True, EPtr (EStruct [(''ID'', False, ELeaf (VString ''cus_1''))])),
              (''Note'', False, ELeaf (VString ''''))]"



section \<open>Properties\<close>

subsection \<open>Decimal digits and the timestamp layout\<close>

lemma is_digit_digit_char: "n < 10 \<Longrightarrow> is_digit (digit_char n)"
  unfolding is_digit_def digit_char_def by (rule nth_mem) simp

lemma digits_all_digit: "list_all is_digit (digits n)"
proof (induction n rule: digits.induct)
  case (1 n)
  show ?case
  proof (cases "n < 10")
    case True
    then show ?thesis by (simp add: digits.simps [of n] is_digit_digit_char)
  next
    case False
    with 1 show ?thesis by (simp add: digits.simps [of n] is_digit_digit_char)
  qed
qed

lemma digits_nonempty: "digits n \<noteq> []"
  by (subst digits.simps) simp

lemma length_digits_1: "n < 10 \<Longrightarrow> length (digits n) = 1"
  by (subst digits.simps) simp

lemma length_digits_2: "10 \<le> n \<Longrightarrow> n < 100 \<Longrightarrow> length (digits n) = 2"
  by (subst digits.simps) (simp add: length_digits_1)

lemma length_digits_3: "100 \<le> n \<Longrightarrow> n < 1000 \<Longrightarrow> length (digits n) = 3"
  by (subst digits.simps) (simp add: length_digits_2)

lemma length_digits_4: "1000 \<le> n \<Longrightarrow> n < 10000 \<Longrightarrow> length (digits n) = 4"
  by (subst digits.simps) (simp add: length_digits_3)

lemma matches_Cons:
  "matches (p # ps) s \<longleftrightarrow>
     (\<exists>c cs. s = c # cs \<and> (if p = CHR ''d'' then is_digit c else c = p) \<and> matches ps cs)"
  by (cases s) auto

lemma matches_digits:
  "matches (replicate n (CHR ''d'')) s \<longleftrightarrow> length s = n \<and> list_all is_digit s"
proof (induction n arbitrary: s)
  case 0
  then show ?case by (cases s) auto
next
  case (Suc n)
  then show ?case by (cases s) auto
qed

lemma matches_append:
  "matches p1 s1 \<Longrightarrow> matches p2 s2 \<Longrightarrow> matches (p1 @ p2) (s1 @ s2)"
  by (induction p1 s1 rule: matches.induct) auto

lemma replicate_zero_digits: "list_all is_digit (replicate k (CHR ''0''))"
  by (induction k) (simp_all add: is_digit_def)

lemma appendInt_2:
  assumes "0 \<le> x" "x < 100" shows "matches ''dd'' (appendInt x 2)"
proof -
  let ?ds = "digits (nat \<bar>x\<bar>)"
  have len: "length ?ds \<le> 2"
    using assms length_digits_1 [of "nat \<bar>x\<bar>"] length_digits_2 [of "nat \<bar>x\<bar>"]
    by (cases "nat \<bar>x\<bar> < 10") auto
  have "length (appendInt x 2) = 2 \<and> list_all is_digit (appendInt x 2)"
    using assms len
    by (simp add: appendInt_def Let_def digits_all_digit replicate_zero_digits)
  moreover have "''dd'' = replicate 2 (CHR ''d'')" by (simp add: numeral_2_eq_2)
  ultimately show ?thesis by (simp only: matches_digits)
qed

lemma appendInt_4:
  assumes "1000 \<le> x" "x < 10000" shows "matches ''dddd'' (appendInt x 4)"
proof -
  let ?ds = "digits (nat \<bar>x\<bar>)"
  have len: "length ?ds = 4"
    using assms by (intro length_digits_4) auto
  have "length (appendInt x 4) = 4 \<and> list_all is_digit (appendInt x 4)"
    using assms len by (simp add: appendInt_def Let_def digits_all_digit)
  moreover have "''dddd'' = replicate 4 (CHR ''d'')" by (simp add: numeral_eq_Suc)
  ultimately show ?thesis by (simp only: matches_digits)
qed

lemma cut_cycle:
  fixes d p :: int
  assumes "0 < p" "0 \<le> d" "d \<le> 4 * p"
  defines "c \<equiv> d div p"
  defines "n \<equiv> c - c div 4"
  shows "0 \<le> n \<and> n \<le> 3 \<and> 0 \<le> d - p * n \<and> d - p * n \<le> p"
proof -
  have c0: "0 \<le> c" using assms by (simp add: pos_imp_zdiv_nonneg_iff)
  have "d div p \<le> (4 * p) div p" using assms by (intro zdiv_mono1) auto
  then have c4: "c \<le> 4" using assms by simp
  have eq: "d = p * c + d mod p" by (simp add: c_def)
  have r: "0 \<le> d mod p \<and> d mod p < p" using assms(1) by simp
  have lo: "p * c \<le> d" using eq r by linarith
  have hi: "d < p * c + p" using eq r by linarith
  consider "c = 0" | "c = 1" | "c = 2" | "c = 3" | "c = 4" using c0 c4 by linarith
  then show ?thesis
  proof cases
    case 1 then show ?thesis using lo hi assms(1,2) by (simp add: n_def)
  next
    case 2 then show ?thesis using lo hi assms(1,2) by (simp add: n_def)
  next
    case 3 then show ?thesis using lo hi assms(1,2) by (simp add: n_def)
  next
    case 4 then show ?thesis using lo hi assms(1,2) by (simp add: n_def)
  next
    case 5 then show ?thesis using lo hi assms(1,2,3) by (simp add: n_def)
  qed
qed

lemma year_day_bounds:
  "0 \<le> snd (year_day d0) \<and> snd (year_day d0) \<le> 365 \<and>
   1 + 400 * (d0 div 146097) \<le> fst (year_day d0) \<and>
   fst (year_day d0) \<le> 400 + 400 * (d0 div 146097)"
proof -
  define d1 where "d1 = d0 mod 146097"
  define c100 where "c100 = d1 div 36524"
  define n100 where "n100 = c100 - c100 div 4"
  define d2 where "d2 = d1 - 36524 * n100"
  define n4 where "n4 = d2 div 1461"
  define d3 where "d3 = d2 - 1461 * n4"
  define c1 where "c1 = d3 div 365"
  define n1 where "n1 = c1 - c1 div 4"
  define d4 where "d4 = d3 - 365 * n1"
  have 1: "0 \<le> d1 \<and> d1 \<le> 4 * 36524" by (simp add: d1_def)
  have 2: "0 \<le> n100 \<and> n100 \<le> 3 \<and> 0 \<le> d2 \<and> d2 \<le> 36524"
    using cut_cycle [of 36524 d1] 1 by (simp add: d2_def n100_def c100_def)
  have d3_mod: "d3 = d2 mod 1461" by (simp add: d3_def n4_def minus_mult_div_eq_mod)
  have 3: "0 \<le> d3 \<and> d3 \<le> 4 * 365" by (simp add: d3_mod)
  have "0 \<le> n4" using 2 by (simp add: n4_def pos_imp_zdiv_nonneg_iff)
  moreover have "d2 div 1461 \<le> 36524 div 1461" using 2 by (intro zdiv_mono1) auto
  ultimately have 4: "0 \<le> n4 \<and> n4 \<le> 24" by (simp add: n4_def)
  have 5: "0 \<le> n1 \<and> n1 \<le> 3 \<and> 0 \<le> d4 \<and> d4 \<le> 365"
    using cut_cycle [of 365 d3] 3 by (simp add: d4_def n1_def c1_def)
  have "year_day d0 = (1 + 400 * (d0 div 146097) + 100 * n100 + 4 * n4 + n1, d4)"
    by (simp only: year_day_def Let_def d4_def n1_def c1_def d3_def n4_def d2_def n100_def
        c100_def d1_def)
  with 2 4 5 show ?thesis by simp
qed

lemma month_day_bounds:
  assumes "0 \<le> d" "d \<le> sum_list ls" "list_all (\<lambda>l. 1 \<le> l \<and> l \<le> 31) ls"
    and "month_day ls m d = (m', d')"
  shows "m \<le> m' \<and> m' \<le> m + int (length ls) \<and> 1 \<le> d' \<and> d' \<le> 31"
  using assms
proof (induction ls arbitrary: m d)
  case Nil
  then show ?case by auto
next
  case (Cons l ls)
  show ?case
  proof (cases "d < l")
    case True
    with Cons.prems show ?thesis by auto
  next
    case False
    with Cons.prems have "month_day ls (m + 1) (d - l) = (m', d')" by simp
    moreover have "0 \<le> d - l" "d - l \<le> sum_list ls" using False Cons.prems by auto
    moreover have "list_all (\<lambda>l. 1 \<le> l \<and> l \<le> 31) ls" using Cons.prems by simp
    ultimately have "m + 1 \<le> m' \<and> m' \<le> m + 1 + int (length ls) \<and> 1 \<le> d' \<and> d' \<le> 31"
      using Cons.IH by blast
    then show ?thesis by simp
  qed
qed

lemma matches_all_digits:
  "matches p s \<Longrightarrow> list_all is_digit s \<Longrightarrow> list_all (\<lambda>c. c = CHR ''d'' \<or> is_digit c) p"
  by (induction p s rule: matches.induct) (auto split: if_splits)

lemma timestamp_not_plain:
  assumes "is_timestamp_text s"
  shows "\<not> is_plain_int_text s"
proof (cases s)
  case Nil
  then show ?thesis by simp
next
  case (Cons c cs)
  show ?thesis
  proof (cases "c = CHR ''-''")
    case True
    with assms Cons show ?thesis by (simp add: is_timestamp_text_def is_digit_def)
  next
    case False
    have "\<not> list_all is_digit s"
    proof
      assume "list_all is_digit s"
      with assms have "list_all (\<lambda>c. c = CHR ''d'' \<or> is_digit c) ''dddd-dd-dd dd:dd:dd''"
        unfolding is_timestamp_text_def by (rule matches_all_digits)
      then show False by (simp add: is_digit_def)
    qed
    with False Cons show ?thesis by simp
  qed
qed

lemma fmt_d_plain: "is_plain_int_text (fmt_d x)"
proof (cases "digits (nat \<bar>x\<bar>)")
  case Nil
  then show ?thesis using digits_nonempty by blast
next
  case (Cons c cs)
  moreover have "list_all is_digit (digits (nat \<bar>x\<bar>))" by (rule digits_all_digit)
  ultimately show ?thesis by (auto simp: fmt_d_def is_digit_def)
qed

text \<open>
  The days of 2001 to 2033 lie in the sixth 400-year cycle: a Unix time between
  1000000000 and 2000000000, moved by at most a day, has a four-digit year.
\<close>

lemma days_range:
  fixes v off :: int
  assumes "1000000000 < v" "v < 2000000000" "\<bar>off\<bar> \<le> 86400"
  shows "((v + off) div 86400 + 719162) div 146097 = 5"
proof -
  define t where "t = v + off"
  define days where "days = t div 86400"
  have t: "999913600 \<le> t" "t \<le> 2000086400" using assms by (auto simp: t_def)
  have "999913600 div 86400 \<le> t div 86400" using t by (intro zdiv_mono1) auto
  moreover have "t div 86400 \<le> 2000086400 div 86400" using t by (intro zdiv_mono1) auto
  ultimately have days: "11573 \<le> days" "days \<le> 23149" by (simp_all add: days_def)
  have "(days + 719162) div 146097 = 5"
    using days by (intro int_div_pos_eq [where r = "days + 719162 - 730485"]) auto
  then show ?thesis by (simp add: days_def t_def)
qed

lemma format_time_eq:
  assumes yd: "year_day ((v + off) div 86400 + 719162) = (y, yd)"
    and md: "month_day (month_lengths (isLeap y)) 1 yd = (m, d)"
    and "sod = (v + off) mod 86400"
  shows "format_time off v =
      appendInt y 4 @ ''-'' @ appendInt m 2 @ ''-'' @ appendInt d 2 @ '' ''
         @ appendInt (sod div 3600) 2 @ '':'' @ appendInt (sod mod 3600 div 60) 2
         @ '':'' @ appendInt (sod mod 60) 2"
    using assms by (simp add: format_time_def Let_def)

lemma layout_parts:
  assumes "matches ''dddd'' a" "matches ''dd'' b" "matches ''dd'' c" "matches ''dd'' d"
     "matches ''dd'' e" "matches ''dd'' f"
  shows "is_timestamp_text (a @ ''-'' @ b @ ''-'' @ c @ '' '' @ d @ '':'' @ e @ '':'' @ f)"
proof -
  have "matches (''dddd'' @ ''-'' @ ''dd'' @ ''-'' @ ''dd'' @ '' '' @ ''dd'' @ '':'' @ ''dd''
      @ '':'' @ ''dd'') (a @ ''-'' @ b @ ''-'' @ c @ '' '' @ d @ '':'' @ e @ '':'' @ f)"
    by (intro matches_append assms) simp_all
  then show ?thesis by (simp add: is_timestamp_text_def)
qed

lemma format_time_shape:
  assumes "1000000000 < v" "v < 2000000000" "\<bar>off\<bar> \<le> 86400"
  shows "is_timestamp_text (format_time off v)"
proof -
  define sod where "sod = (v + off) mod 86400"
  obtain y yd where yd: "year_day ((v + off) div 86400 + 719162) = (y, yd)"
    by (cases "year_day ((v + off) div 86400 + 719162)")
  obtain m d where md: "month_day (month_lengths (isLeap y)) 1 yd = (m, d)"
    by (cases "month_day (month_lengths (isLeap y)) 1 yd")
  have cyc: "((v + off) div 86400 + 719162) div 146097 = 5"
    using assms by (rule days_range)
  have yb: "2001 \<le> y \<and> y \<le> 2400 \<and> 0 \<le> yd \<and> yd \<le> 365"
    using year_day_bounds [of "(v + off) div 86400 + 719162"] by (simp add: yd cyc)
  have sum: "yd \<le> sum_list (month_lengths (isLeap y))"
    using yb by (simp add: month_lengths_def)
  have lens: "list_all (\<lambda>l. 1 \<le> l \<and> l \<le> 31) (month_lengths (isLeap y))"
    by (simp add: month_lengths_def)
  have "length (month_lengths (isLeap y)) = 12" by (simp add: month_lengths_def)
  with month_day_bounds [OF _ sum lens md] yb
  have mdb: "1 \<le> m \<and> m \<le> 13 \<and> 1 \<le> d \<and> d \<le> 31" by simp
  have sod: "0 \<le> sod" "sod \<le> 86399"
    using pos_mod_bound [of 86400 "v + off"] by (simp_all add: sod_def)
  have "sod div 3600 \<le> 86399 div 3600" using sod by (intro zdiv_mono1) auto
  then have h: "0 \<le> sod div 3600 \<and> sod div 3600 < 100"
    using sod by (simp add: pos_imp_zdiv_nonneg_iff)
  have "0 \<le> sod mod 3600" "sod mod 3600 \<le> 3599"
    using pos_mod_bound [of 3600 sod] by simp_all
  then have "sod mod 3600 div 60 \<le> 3599 div 60" by (intro zdiv_mono1) auto
  then have mi: "0 \<le> sod mod 3600 div 60 \<and> sod mod 3600 div 60 < 100"
    by (simp add: pos_imp_zdiv_nonneg_iff)
  have s: "0 \<le> sod mod 60 \<and> sod mod 60 < 100"
    using pos_mod_bound [of 60 sod] by simp
  show ?thesis
    unfolding format_time_eq [OF yd md sod_def]
  proof (rule layout_parts)
    show "matches ''dddd'' (appendInt y 4)" using yb by (intro appendInt_4) auto
    show "matches ''dd'' (appendInt m 2)" using mdb by (intro appendInt_2) auto
    show "matches ''dd'' (appendInt d 2)" using mdb by (intro appendInt_2) auto
    show "matches ''dd'' (appendInt (sod div 3600) 2)" using h by (intro appendInt_2) auto
    show "matches ''dd'' (appendInt (sod mod 3600 div 60) 2)"
      using mi by (intro appendInt_2) auto
    show "matches ''dd'' (appendInt (sod mod 60) 2)" using s by (intro appendInt_2) auto
  qed
qed

subsection \<open>C1: integers and the timestamp window\<close>

text \<open>
  Claim C1 says that a signed integer is rendered as a timestamp exactly when it lies in
  the half-open range from 1000000000 (included) to 2000000000 (excluded). The source
  compares with \<^verbatim>\<open>v.Int() > 1000000000 && v.Int() < 2000000000\<close>: both bounds are
  excluded, and 1000000000 itself is printed as a plain integer.
\<close>

lemma fmt_d_not_timestamp: "\<not> is_timestamp_text (fmt_d x)"
  using timestamp_not_plain [of "fmt_d x"] fmt_d_plain [of x] by blast

text \<open>
  C1, as amended: for every signed integer \<open>v\<close> (of any signed kind), in a local zone
  whose offset at \<open>v\<close> is at most one day, the Value Classifier renders \<open>v\<close> as the
  local time of the Unix instant \<open>v\<close> in the layout \<^verbatim>\<open>YYYY-MM-DD HH:MM:SS\<close> exactly
  when \<open>1000000000 < v < 2000000000\<close>, and as a plain base-10 integer otherwise.
\<close>

theorem C1_integer_classification:
  assumes "\<bar>z v\<bar> \<le> 86400"
  shows "formatFieldValue z (VInt k v) =
           (if 1000000000 < v \<and> v < 2000000000 then format_time (z v) v else fmt_d v)
       \<and> (is_timestamp_text (formatFieldValue z (VInt k v))
            \<longleftrightarrow> 1000000000 < v \<and> v < 2000000000)
       \<and> (is_plain_int_text (formatFieldValue z (VInt k v))
            \<longleftrightarrow> \<not> (1000000000 < v \<and> v < 2000000000))"
proof (cases "1000000000 < v \<and> v < 2000000000")
  case True
  then have eq: "formatFieldValue z (VInt k v) = format_time (z v) v" by simp
  have "is_timestamp_text (format_time (z v) v)"
    using True assms by (intro format_time_shape) auto
  then show ?thesis using True eq timestamp_not_plain by auto
next
  case False
  then have eq: "formatFieldValue z (VInt k v) = fmt_d v" by auto
  show ?thesis using False eq fmt_d_plain fmt_d_not_timestamp by auto
qed

text \<open>
  The four boundary values of the specification and the first value of the window, in
  UTC; the last value of the window also in a zone nine hours east of UTC.
\<close>

theorem C1_integer_classification_witness:
  "\<bar>zone_utc 999999999\<bar> \<le> 86400
   \<and> is_plain_int_text (formatFieldValue zone_utc (VInt KInt64 999999999))
   \<and> \<bar>zone_utc 1000000000\<bar> \<le> 86400
   \<and> is_plain_int_text (formatFieldValue zone_utc (VInt KInt64 1000000000))
   \<and> \<bar>zone_utc 1000000001\<bar> \<le> 86400
   \<and> is_timestamp_text (formatFieldValue zone_utc (VInt KInt64 1000000001))
   \<and> \<bar>zone_utc 1999999999\<bar> \<le> 86400
   \<and> is_timestamp_text (formatFieldValue zone_utc (VInt KInt64 1999999999))
   \<and> \<bar>zone_utc 2000000000\<bar> \<le> 86400
   \<and> is_plain_int_text (formatFieldValue zone_utc (VInt KInt64 2000000000))
   \<and> \<bar>zone_jst 1999999999\<bar> \<le> 86400
   \<and> formatFieldValue zone_jst (VInt KInt64 1999999999) = ''2033-05-18 12:33:19''
   \<and> is_timestamp_text (formatFieldValue zone_jst (VInt KInt64 1999999999))
   \<and> \<not> is_plain_int_text (formatFieldValue zone_jst (VInt KInt64 1999999999))"
proof -
  have u: "\<bar>zone_utc t\<bar> \<le> 86400" for t by (simp add: zone_utc_def)
  have j: "\<bar>zone_jst 1999999999\<bar> \<le> 86400" by (simp add: zone_jst_def)
  have v: "format_time (zone_jst 1999999999) 1999999999 = ''2033-05-18 12:33:19''"
    by code_simp
  show ?thesis
    using u j v
      C1_integer_classification [of zone_utc 999999999 KInt64]
      C1_integer_classification [of zone_utc 1000000000 KInt64]
      C1_integer_classification [of zone_utc 1000000001 KInt64]
      C1_integer_classification [of zone_utc 1999999999 KInt64]
      C1_integer_classification [of zone_utc 2000000000 KInt64]
      C1_integer_classification [of zone_jst 1999999999 KInt64]
    by simp
qed

text \<open>
  The counterexample to C1 as stated: 1000000000 is inside the half-open range of the
  claim, and is rendered as a plain integer.
\<close>

theorem C1_lower_bound_counterexample:
  "formatFieldValue zone_utc (VInt KInt64 1000000000) = ''1000000000''
   \<and> \<not> is_timestamp_text (formatFieldValue zone_utc (VInt KInt64 1000000000))"
  by (simp add: fmt_d_def digits.simps digit_char_def is_timestamp_text_def)

subsection \<open>C5: string truncation\<close>





subsection \<open>C7: the empty collection\<close>

text \<open>
  C7: rendering an empty collection (given directly or through a pointer) in tabular
  format succeeds, and writes the line \<^verbatim>\<open>No items found.\<close> and nothing else: no table
  is rendered, so in particular no header-only table.
\<close>

theorem C7_empty_collection:
  "TableFormat z (VSlice []) = Inr [Println ''No items found.'']
   \<and> TableFormat z (VPtr txt (Some (VSlice []))) = Inr [Println ''No items found.'']"
  by (simp add: TableFormat_def formatSlice_def)

text \<open>An empty slice, and a pointer to one, in UTC.\<close>

theorem C7_empty_collection_witness:
  "TableFormat zone_utc (VSlice []) = Inr [Println ''No items found.'']
   \<and> TableFormat zone_utc (VPtr ''0xc000030000'' (Some (VSlice [])))
       = Inr [Println ''No items found.'']"
  using C7_empty_collection [of zone_utc "''0xc000030000''"] by simp

subsection \<open>C8: the Dispatcher\<close>

text \<open>
  C8: the Dispatcher selects the JSON renderer for \<^verbatim>\<open>json\<close>, the YAML renderer for
  \<^verbatim>\<open>yaml\<close>, the identifier-only renderer for \<^verbatim>\<open>quiet\<close>, and the tabular renderer
  for \<^verbatim>\<open>table\<close> and for every other name, the empty one included. Selection is a
  total function into the four renderers: it has no failure to return.
\<close>

theorem C8_dispatch:
  "NewFormatter ''json'' = JSONFormatter
   \<and> NewFormatter ''yaml'' = YAMLFormatter
   \<and> NewFormatter ''quiet'' = QuietFormatter
   \<and> NewFormatter ''table'' = TableFormatter
   \<and> (name \<noteq> ''json'' \<and> name \<noteq> ''yaml'' \<and> name \<noteq> ''quiet''
        \<longrightarrow> NewFormatter name = TableFormatter)"
  by (simp add: NewFormatter_def)

theorem C8_dispatch_witness:
  "NewFormatter ''csv'' = TableFormatter \<and> NewFormatter '''' = TableFormatter"
  using C8_dispatch [of "''csv''"] C8_dispatch [of "''''"] by simp

subsection \<open>C9: the identifier extractor\<close>





subsection \<open>C3: the fallback of the Field Selector\<close>

lemma TypeFieldByName_find:
  "TypeFieldByName fs name = List.find (\<lambda>f. Name f = name) (map fst fs)"
  by (induction fs) auto

lemma TypeFieldByName_undeclared: "\<not> declares fs name \<Longrightarrow> TypeFieldByName fs name = None"
  by (induction fs) (auto simp: declares_def)

lemma common_loop_undeclared:
  "list_all (\<lambda>name. \<not> declares fs name) names \<Longrightarrow> common_loop fs names acc = acc"
proof (induction names arbitrary: acc)
  case Nil
  then show ?case by (cases acc) simp
next
  case (Cons n names)
  then show ?case by (cases acc) (simp add: TypeFieldByName_undeclared)
qed

lemma first_loop_eq:
  "first_loop fs i (headers, keys) =
     (headers @ map (\<lambda>f. ToUpper (getFieldName f))
                  (filter IsExported (map fst (drop i (take 6 fs)))),
      keys @ map Name (filter IsExported (map fst (drop i (take 6 fs)))))"
proof (induction fs i "(headers, keys)" arbitrary: headers keys rule: first_loop.induct)
  case (1 fs i headers keys)
  show ?case
  proof (cases "i < length fs \<and> i < 6")
    case True
    then have "i < length (take 6 fs)" by simp
    then have d: "drop i (take 6 fs) = fs ! i # drop (Suc i) (take 6 fs)"
      using Cons_nth_drop_Suc [of i "take 6 fs"] True by simp
    show ?thesis
    proof (cases "IsExported (fst (fs ! i))")
      case e: True
      with True 1(1) [OF True refl e] show ?thesis
        by (subst first_loop.simps) (simp add: d Let_def)
    next
      case e: False
      with True 1(2) [OF True refl e] show ?thesis
        by (subst first_loop.simps) (simp add: d Let_def)
    qed
  next
    case False
    then have "drop i (take 6 fs) = []" by auto
    with False show ?thesis by (subst first_loop.simps) auto
  qed
qed

text \<open>
  C3, as amended: for every record shape that has none of the well-known priority field
  names, the Field Selector returns exactly the exported fields among the first six
  declared fields, in declaration order (among all the fields, if there are fewer than
  six), with their display names in upper case as headers. When those fields are all
  exported, the keys are the first six declared names.
\<close>

theorem C3_fallback_fields:
  assumes "no_common_fields fs"
  shows "getTableHeaders (VStruct t fs) =
           (map (\<lambda>f. ToUpper (getFieldName f)) (exported_fields 6 fs),
            map Name (exported_fields 6 fs))
       \<and> (list_all IsExported (map fst (take 6 fs))
            \<longrightarrow> snd (getTableHeaders (VStruct t fs)) = declared_names 6 fs)"
proof -
  have c: "common_loop fs commonFields ([], []) = ([], [])"
    using assms unfolding no_common_fields_def by (rule common_loop_undeclared)
  have g: "getTableHeaders (VStruct t fs) =
           (map (\<lambda>f. ToUpper (getFieldName f)) (exported_fields 6 fs),
            map Name (exported_fields 6 fs))"
    by (simp add: getTableHeaders_def c first_loop_eq exported_fields_def)
  have "list_all IsExported (map fst (take 6 fs)) \<Longrightarrow>
      map Name (exported_fields 6 fs) = declared_names 6 fs"
    by (simp add: exported_fields_def declared_names_def list_all_iff case_prod_beta)
  with g show ?thesis by simp
qed

text \<open>A listing record with an unexported first field: three columns are selected.\<close>

theorem C3_fallback_fields_witness:
  "no_common_fields listing_fields
   \<and> getTableHeaders (VStruct None listing_fields) =
       ([''COUNT'', ''HAS_MORE'', ''URL''], [''Count'', ''HasMore'', ''URL''])"
proof -
  have h: "no_common_fields listing_fields" by code_simp
  have e: "(map (\<lambda>f. ToUpper (getFieldName f)) (exported_fields 6 listing_fields),
            map Name (exported_fields 6 listing_fields))
         = ([''COUNT'', ''HAS_MORE'', ''URL''], [''Count'', ''HasMore'', ''URL''])"
    by code_simp
  show ?thesis using h e C3_fallback_fields [OF h, of None] by simp
qed

text \<open>
  The counterexample to C3 as stated: the record has none of the well-known names and
  four declared fields, and the Field Selector leaves the unexported one out.
\<close>

theorem C3_unexported_counterexample:
  "no_common_fields listing_fields
   \<and> declared_names 6 listing_fields = [''service'', ''Count'', ''HasMore'', ''URL'']
   \<and> snd (getTableHeaders (VStruct None listing_fields)) = [''Count'', ''HasMore'', ''URL'']"
  by code_simp

subsection \<open>C6 and C2: the tabular renderer\<close>


lemma row_loop_no_keys: "row_loop z v [] row = Inr row"
  by simp

lemma row_loop_not_error: "row_loop z v keys row \<noteq> Inl (Error msg)"
  by (induction keys arbitrary: row) (auto simp: Let_def)


lemma append_rows_no_keys:
  "append_rows z xs [] rows = Inr (rows @ map (\<lambda>x. []) xs)"
  by (induction xs arbitrary: rows) (simp_all add: getTableRow_def)

lemma append_rows_not_error: "append_rows z xs keys rows \<noteq> Inl (Error msg)"
proof (induction xs arbitrary: rows)
  case Nil
  then show ?case by simp
next
  case (Cons x xs)
  then show ?case
    by (cases "getTableRow z (indirect x) keys")
       (auto simp: getTableRow_def row_loop_not_error)
qed



text \<open>
  C2, as amended: the tabular renderer returns the usage error
  \<^verbatim>\<open>expected struct, got <kind>\<close> for every input that, after one pointer
  dereference, is not a slice and, after one more, is not a struct. For a slice, whatever
  its elements, and for a struct it returns no usage error; a non-empty slice whose
  first element is not a record is rendered as a table without columns, followed by
  the count line.
\<close>

theorem C2_usage_error:
  "(Kind (indirect d) \<noteq> KSlice \<and> Kind (indirect (indirect d)) \<noteq> KStruct
      \<longrightarrow> TableFormat z d =
            Inl (Error (''expected struct, got '' @ kind_name (Kind (indirect (indirect d))))))
   \<and> (Kind (indirect d) = KSlice \<or> Kind (indirect (indirect d)) = KStruct
        \<longrightarrow> (\<forall>msg. TableFormat z d \<noteq> Inl (Error msg)))
   \<and> (indirect d = VSlice xs \<and> xs \<noteq> [] \<and> \<not> is_record (hd xs)
        \<longrightarrow> TableFormat z d =
              Inr [Render [] (map (\<lambda>x. []) xs),
                   Println (''Total: '' @ fmt_d (int (length xs)) @ '' items'')])"
proof (intro conjI impI)
  assume "Kind (indirect d) \<noteq> KSlice \<and> Kind (indirect (indirect d)) \<noteq> KStruct"
  then show "TableFormat z d =
      Inl (Error (''expected struct, got '' @ kind_name (Kind (indirect (indirect d)))))"
    by (simp add: TableFormat_def formatSingle_def Let_def)
next
  assume a: "Kind (indirect d) = KSlice \<or> Kind (indirect (indirect d)) = KStruct"
  show "\<forall>msg. TableFormat z d \<noteq> Inl (Error msg)"
  proof (cases "Kind (indirect d) = KSlice")
    case True
    then show ?thesis
      using append_rows_not_error
      by (auto simp: TableFormat_def formatSlice_def Let_def split: prod.splits sum.splits)
  next
    case False
    with a show ?thesis by (simp add: TableFormat_def formatSingle_def Let_def)
  qed
next
  assume a: "indirect d = VSlice xs \<and> xs \<noteq> [] \<and> \<not> is_record (hd xs)"
  then have "xs ! 0 = hd xs" by (simp add: hd_conv_nth)
  moreover have "getTableHeaders (indirect (hd xs)) = ([], [])"
    using a by (simp add: getTableHeaders_def is_record_def)
  ultimately show "TableFormat z d =
      Inr [Render [] (map (\<lambda>x. []) xs),
           Println (''Total: '' @ fmt_d (int (length xs)) @ '' items'')]"
    using a by (simp add: TableFormat_def formatSlice_def append_rows_no_keys)
qed

text \<open>A scalar and a nil interface are refused; a slice of integers is not.\<close>

theorem C2_usage_error_witness:
  "TableFormat zone_utc (VInt KInt 2) = Inl (Error ''expected struct, got int'')
   \<and> TableFormat zone_utc VInvalid = Inl (Error ''expected struct, got invalid'')
   \<and> (\<forall>msg. TableFormat zone_utc numbers \<noteq> Inl (Error msg))
   \<and> TableFormat zone_utc numbers = Inr [Render [] [[], []], Println ''Total: 2 items'']"
proof -
  have e: "fmt_d (int (length [VInt KInt 1, VInt KInt 2])) = ''2''" by code_simp
  show ?thesis
  using C2_usage_error [of "VInt KInt 2" zone_utc]
    C2_usage_error [of VInvalid zone_utc]
    C2_usage_error [of numbers zone_utc "[VInt KInt 1, VInt KInt 2]"] e
  by (simp add: numbers_def is_record_def)
qed

text \<open>
  The counterexample to C2 as stated: a slice of two integers is neither a record nor a
  collection of records, and the render call succeeds.
\<close>

theorem C2_numbers_counterexample:
  "\<not> is_record numbers \<and> \<not> is_record_collection numbers
   \<and> TableFormat zone_utc numbers = Inr [Render [] [[], []], Println ''Total: 2 items'']"
  by code_simp

subsection \<open>C4: what a rendering depends on\<close>

text \<open>
  The renderers keep no state between calls: in the embedding they are functions of
  their input. One piece of process-wide state is read, though: \<^verbatim>\<open>time.Unix(v, 0)\<close>
  yields a time in \<^verbatim>\<open>time.Local\<close>, so the text of a timestamp depends on the local
  time zone of the process.
\<close>

lemma common_loop_shape:
  "map fst fs = map fst fs' \<Longrightarrow> common_loop fs names acc = common_loop fs' names acc"
proof (induction names arbitrary: acc)
  case Nil
  then show ?case by (cases acc) simp
next
  case (Cons n names)
  then show ?case by (cases acc) (auto simp: TypeFieldByName_find split: option.splits)
qed

lemma first_loop_shape:
  assumes "map fst fs = map fst fs'"
  shows "first_loop fs i acc = first_loop fs' i acc"
proof -
  have "map fst (drop i (take 6 fs)) = map fst (drop i (take 6 fs'))"
    using assms by (simp add: drop_map [symmetric] take_map [symmetric])
  then show ?thesis by (cases acc) (simp add: first_loop_eq)
qed

lemma formatKind_zones:
  "zones_agree z z' (kind_instants v) \<Longrightarrow> formatKind z v = formatKind z' v"
proof (cases v)
  case (VStruct t fs)
  assume "zones_agree z z' (kind_instants v)"
  with VStruct show ?thesis
    by (cases t) (auto simp: zones_agree_def loc_offset_def split: location.splits)
qed (auto simp: zones_agree_def)

text \<open>
  C4, as amended: field selection is a function of the record's shape alone (two records
  with the same field descriptors get the same headers and keys, whatever their
  values), and value classification is a function of the value and of the local time
  zone alone: two zones that agree at the instants of the value (a signed integer in the
  timestamp window, a time held in the local location) give the same text, and a value
  without such instants has the same text in every zone.
\<close>

theorem C4_purity:
  "(map fst fs = map fst fs'
      \<longrightarrow> getTableHeaders (VStruct t fs) = getTableHeaders (VStruct t' fs'))
   \<and> (zones_agree z z' (local_instants v)
        \<longrightarrow> formatFieldValue z v = formatFieldValue z' v)
   \<and> (local_instants v = [] \<longrightarrow> formatFieldValue z v = formatFieldValue z' v)"
proof (intro conjI impI)
  assume a: "map fst fs = map fst fs'"
  show "getTableHeaders (VStruct t fs) = getTableHeaders (VStruct t' fs')"
    by (simp add: getTableHeaders_def common_loop_shape [OF a] first_loop_shape [OF a]
        split: prod.splits)
next
  assume a: "zones_agree z z' (local_instants v)"
  show "formatFieldValue z v = formatFieldValue z' v"
    using a
    by (cases "(z, v)" rule: formatFieldValue.cases)
       (auto simp del: formatKind.simps intro: formatKind_zones)
next
  assume "local_instants v = []"
  then have a: "zones_agree z z' (local_instants v)" by (simp add: zones_agree_def)
  show "formatFieldValue z v = formatFieldValue z' v"
    using a
    by (cases "(z, v)" rule: formatFieldValue.cases)
       (auto simp del: formatKind.simps intro: formatKind_zones)
qed

text \<open>Two charges share their columns; an amount and a currency read the same in any zone.\<close>

theorem C4_purity_witness:
  "getTableHeaders (charge ''ch_1'' 1000 ''succeeded'') = getTableHeaders (charge ''ch_2'' 2000 ''failed'')
   \<and> formatFieldValue zone_utc (VInt KInt 1000) = formatFieldValue zone_jst (VInt KInt 1000)
   \<and> formatFieldValue zone_utc (VString ''jpy'') = formatFieldValue zone_jst (VString ''jpy'')"
  using C4_purity [of "fields_of (charge ''ch_1'' 1000 ''succeeded'')"
      "fields_of (charge ''ch_2'' 2000 ''failed'')" None None zone_utc zone_jst "VInt KInt 1000"]
    C4_purity [of "[]" "[]" None None zone_utc zone_jst "VString ''jpy''"]
  by (simp add: charge_def zones_agree_def)

text \<open>
  The counterexample to C4 as stated: the same integer is rendered differently under
  two settings of the process-wide local time zone.
\<close>

theorem C4_local_zone_counterexample:
  "formatFieldValue zone_utc (VInt KInt64 1500000000) = ''2017-07-14 02:40:00''
   \<and> formatFieldValue zone_jst (VInt KInt64 1500000000) = ''2017-07-14 11:40:00''
   \<and> formatFieldValue zone_utc (VInt KInt64 1500000000)
       \<noteq> formatFieldValue zone_jst (VInt KInt64 1500000000)"
  by code_simp

subsection \<open>C10: the identifier-only renderer on every input\<close>

text \<open>
  The renderer has no error to return, and on flat records the extractor with embedded
  fields is the extractor of C9. The depth to which the search for a promoted name goes
  is bounded by the height of the type, and a promoted field can be reached unless the
  way to it leads through a nil pointer.
\<close>

lemma Field_e_not_error: "Field_e v i \<noteq> Inl (Error msg)"
  by (simp add: Field_e_def)

lemma index_loop_not_error: "index_loop i v index \<noteq> Inl (Error msg)"
proof (induction index arbitrary: i v)
  case Nil
  then show ?case by simp
next
  case (Cons x rest)
  show ?case
    using Cons [of "i + 1"] Field_e_not_error
    by (auto split: option.splits sum.splits)
qed

lemma ValueFieldByName_emb_not_error: "ValueFieldByName_emb v name \<noteq> Inl (Error msg)"
  using index_loop_not_error Field_e_not_error
  by (auto simp: ValueFieldByName_emb_def FieldByIndex_def split: option.splits)

lemma id_loop_emb_not_error: "id_loop_emb v names \<noteq> Inl (Error msg)"
proof (induction names)
  case Nil
  then show ?case by simp
next
  case (Cons n names)
  then show ?case
    using ValueFieldByName_emb_not_error [of v n msg]
    by (auto split: sum.splits)
qed

lemma index_of_None_flat:
  "index_of name (map (\<lambda>(f, x). (Name f, h x)) fs) = None \<Longrightarrow> ValueFieldByName fs name = VInvalid"
  by (induction fs) (auto split: if_splits)

lemma index_of_Some_flat:
  "index_of name (map (\<lambda>(f, x). (Name f, h x)) fs) = Some i \<Longrightarrow>
   i < length fs \<and> snd (fs ! i) = ValueFieldByName fs name"
  by (induction fs arbitrary: i) (auto split: if_splits)

lemma promoted_flat:
  "0 < d \<Longrightarrow> promoted d (TStruct (map (\<lambda>(f, x). (Name f, False, h x)) fs)) name = []"
  by (cases d) (auto simp: in_set_enumerate_eq split: prod.splits)

lemma ValueFieldByName_emb_flat:
  "ValueFieldByName_emb (ELeaf (VStruct t fs)) name = Inr (ELeaf (ValueFieldByName fs name))"
proof (cases "index_of name (map (\<lambda>(f, x). (Name f, False, flat_type x)) fs)")
  case None
  then have v: "ValueFieldByName fs name = VInvalid"
    by (rule index_of_None_flat)
  have "filter (\<lambda>ps. ps \<noteq> [])
          (map (\<lambda>d. promoted d (TStruct (map (\<lambda>(f, x). (Name f, False, flat_type x)) fs)) name)
             [1..<n]) = []" for n
    by (auto simp: filter_empty_conv promoted_flat simp del: promoted.simps)
  with None v show ?thesis
    by (simp add: ValueFieldByName_emb_def FieldByName_emb_def
        del: promoted.simps height.simps upt_Suc)
next
  case (Some i)
  then have "i < length fs \<and> snd (fs ! i) = ValueFieldByName fs name"
    by (rule index_of_Some_flat)
  with Some show ?thesis
    by (simp add: ValueFieldByName_emb_def FieldByName_emb_def FieldByIndex_def Field_e_def
        case_prod_beta)
qed

lemma id_loop_emb_flat:
  "id_loop_emb (ELeaf (VStruct t fs)) names = Inr (id_loop fs names)"
  by (induction names) (simp_all add: ValueFieldByName_emb_flat IsValid_def Let_def)

lemma extractID_emb_flat: "extractID_emb (ELeaf g) = Inr (extractID g)"
proof (cases "Kind (indirect g) = KStruct")
  case True
  then obtain t fs where "indirect g = VStruct t fs" by (cases "indirect g") auto
  then show ?thesis
    by (simp add: extractID_emb_def extractID_def id_loop_emb_flat
        del: id_loop_emb.simps id_loop.simps)
next
  case False
  then show ?thesis by (simp add: extractID_emb_def extractID_def)
qed

lemma foldr_max_ge: "x \<in> set xs \<Longrightarrow> x \<le> foldr max xs (0::nat)"
  by (induction xs) auto

lemma height_embedded_struct: "embedded_struct e ty = Some s \<Longrightarrow> height ty = height s"
  by (cases "(e, ty)" rule: embedded_struct.cases) auto

lemma promoted_height: "promoted d t name \<noteq> [] \<Longrightarrow> d < height t"
proof (induction d arbitrary: t)
  case 0
  then show ?case by (cases t) auto
next
  case (Suc d)
  then obtain fs where t: "t = TStruct fs" by (cases t) auto
  from Suc.prems obtain j n e ty s where
    m: "(j, n, e, ty) \<in> set (enumerate 0 fs)" and
    s: "embedded_struct e ty = Some s" and
    ne: "promoted d s name \<noteq> []"
    by (auto simp: t split: option.splits)
  from ne have "d < height s" by (rule Suc.IH)
  moreover have "(n, e, ty) \<in> set fs"
    using m nth_mem [of j fs] by (auto simp: in_set_enumerate_eq)
  then have "height ty \<in> set (map (\<lambda>(n, e, ty). height ty) fs)" by force
  then have "height ty \<le> foldr max (map (\<lambda>(n, e, ty). height ty) fs) 0"
    by (rule foldr_max_ge)
  ultimately show ?case using height_embedded_struct [OF s] by (simp add: t)
qed

lemma promoted_Suc_mem:
  assumes "p \<in> set (promoted (Suc d) t name)"
  shows "\<exists>j n e ty s q. j < length (struct_fields t) \<and> struct_fields t ! j = (n, e, ty) \<and>
        embedded_struct e ty = Some s \<and> q \<in> set (promoted d s name) \<and> p = j # q"
proof -
  from assms obtain x where
    x: "x \<in> set (enumerate 0 (struct_fields t))" and
    px: "p \<in> set (case x of (i, n, e, ty) \<Rightarrow>
                      case embedded_struct e ty of
                        None \<Rightarrow> []
                      | Some s \<Rightarrow> map (\<lambda>p. i # p) (promoted d s name))"
    unfolding promoted.simps set_concat set_map by blast
  obtain j n e ty where xe: "x = (j, n, e, ty)" by (cases x) auto
  from x xe have "j < length (struct_fields t)" "struct_fields t ! j = (n, e, ty)"
    by (auto simp: in_set_enumerate_eq)
  moreover from px xe obtain s q where
    "embedded_struct e ty = Some s" "q \<in> set (promoted d s name)" "p = j # q"
    by (cases "embedded_struct e ty") auto
  ultimately show ?thesis by blast
qed

lemma promoted_length: "p \<in> set (promoted d t name) \<Longrightarrow> length p = Suc d"
proof (induction d arbitrary: t p)
  case 0
  then show ?case by auto
next
  case (Suc d)
  from promoted_Suc_mem [OF Suc.prems] obtain j s q where
    "q \<in> set (promoted d s name)" "p = j # q" by blast
  with Suc.IH show ?case by simp
qed

lemma type_of_fields:
  "struct_fields (type_of v) = map (map_prod id (map_prod id type_of)) (efields v)"
proof (cases v)
  case (ELeaf g)
  then show ?thesis by (cases g rule: flat_type.cases) auto
qed auto

lemma type_of_struct: "type_of v = TStruct fs \<Longrightarrow> Kind_e v = KStruct"
proof (cases v)
  case (ELeaf g)
  assume "type_of v = TStruct fs"
  with ELeaf show ?thesis by (cases g rule: flat_type.cases) auto
qed auto

lemma type_of_pointer:
  assumes "type_of v = TPtr t" and "no_nil v"
  shows "Kind_e v = KPtr \<and> (\<exists>w. elem_e v = Some w \<and> type_of w = t \<and> no_nil w)"
proof (cases v)
  case (ELeaf g)
  with assms show ?thesis by (cases g rule: flat_type.cases) auto
qed (use assms in auto)

lemma no_nil_field:
  assumes "no_nil v" and "j < length (efields v)" and "fst (snd (efields v ! j))"
  shows "no_nil (snd (snd (efields v ! j)))"
proof (cases v)
  case (ELeaf g)
  with assms show ?thesis by (cases g) (auto simp: case_prod_beta)
next
  case (EStruct fs)
  with assms show ?thesis by (auto simp: list_all_length)
qed (use assms in auto)

lemma index_loop_struct:
  "Kind_e v = KStruct \<Longrightarrow>
   index_loop i v (x # rest) =
     (case Field_e v x of Inl e \<Rightarrow> Inl e | Inr f \<Rightarrow> index_loop (i + 1) f rest)"
  by simp

lemma index_loop_promoted:
  "p \<in> set (promoted d (type_of v) name) \<Longrightarrow> Kind_e v = KStruct \<Longrightarrow> no_nil v \<Longrightarrow>
   \<exists>w. index_loop i v p = Inr w"
proof (induction d arbitrary: v p i)
  case 0
  then obtain j where "p = [j]" "j < length (struct_fields (type_of v))"
    by (auto simp: in_set_enumerate_eq)
  then have "j < length (efields v)" by (simp add: type_of_fields)
  with \<open>p = [j]\<close> 0 show ?case by (simp add: Field_e_def)
next
  case (Suc d)
  from Suc.prems(1) obtain j n e ty s q where
    j: "j < length (struct_fields (type_of v))" and
    f: "struct_fields (type_of v) ! j = (n, e, ty)" and
    s: "embedded_struct e ty = Some s" and
    q: "q \<in> set (promoted d s name)" and
    p: "p = j # q"
    using promoted_Suc_mem by blast
  define fv where "fv = snd (snd (efields v ! j))"
  have jl: "j < length (efields v)" using j by (simp add: type_of_fields)
  have ty: "type_of fv = ty" and e: "fst (snd (efields v ! j)) = e"
    using f jl by (cases "efields v ! j"; simp add: type_of_fields fv_def)+
  have emb: "e" using s by (cases "(e, ty)" rule: embedded_struct.cases) auto
  have nn: "no_nil fv" unfolding fv_def using Suc.prems(3) jl e emb by (intro no_nil_field) auto
  have step: "index_loop i v p = index_loop (i + 1) fv q"
    using Suc.prems(2) jl by (simp add: p Field_e_def fv_def)
  obtain x rest where qx: "q = x # rest"
    using promoted_length [OF q] by (cases q) auto
  show ?case
  proof (cases ty)
    case TOther
    with s emb show ?thesis by simp
  next
    case (TStruct fs')
    with s emb have "s = type_of fv" by (simp add: ty)
    moreover have "Kind_e fv = KStruct" using TStruct ty by (intro type_of_struct) auto
    ultimately show ?thesis using Suc.IH [of q fv "i + 1"] q nn step by simp
  next
    case (TPtr t')
    with s emb have st: "t' = s" by (cases t') auto
    from type_of_pointer [of fv t'] ty TPtr nn obtain w where
      k: "Kind_e fv = KPtr" and w: "elem_e fv = Some w" "type_of w = t'" "no_nil w"
      by auto
    obtain fs' where sf: "s = TStruct fs'" using s by (cases "(e, ty)" rule: embedded_struct.cases) auto
    have kw: "Kind_e w = KStruct" using w(2) st sf by (intro type_of_struct) auto
    have "index_loop (i + 1) fv q = index_loop (i + 1) w q"
      using k w kw ty TPtr st sf by (simp add: qx)
    moreover have "\<exists>r. index_loop (i + 1) w q = Inr r"
      using Suc.IH [of q w "i + 1"] q w st kw by simp
    ultimately show ?thesis using step by simp
  qed
qed

lemma index_of_less: "index_of name fs = Some i \<Longrightarrow> i < length fs"
  by (induction fs arbitrary: i) (auto split: if_splits)

lemma FieldByName_emb_cases:
  assumes "FieldByName_emb t name = Some p"
  shows "(\<exists>i. p = [i] \<and> i < length (struct_fields t)) \<or> (\<exists>d. p \<in> set (promoted (Suc d) t name))"
proof (cases "index_of name (struct_fields t)")
  case (Some i)
  with assms index_of_less [OF Some] show ?thesis
    by (auto simp: FieldByName_emb_def simp del: promoted.simps)
next
  case None
  define levels where
    "levels = filter (\<lambda>ps. ps \<noteq> []) (map (\<lambda>d. promoted d t name) [1..<Suc (height t)])"
  from assms None obtain rest where "levels = [p] # rest"
    unfolding FieldByName_emb_def levels_def [symmetric]
    by (auto split: list.splits)
  then have "[p] \<in> set levels" by simp
  then obtain d where "1 \<le> d" "[p] = promoted d t name"
    unfolding levels_def by auto
  then have "p \<in> set (promoted (Suc (d - 1)) t name)"
    by (cases d) (auto simp del: promoted.simps dest: sym)
  then show ?thesis by blast
qed

lemma ValueFieldByName_emb_succeeds:
  assumes "Kind_e v = KStruct" and "no_nil v"
  shows "\<exists>w. ValueFieldByName_emb v name = Inr w"
proof (cases "FieldByName_emb (type_of v) name")
  case None
  with assms show ?thesis by (simp add: ValueFieldByName_emb_def)
next
  case (Some p)
  from FieldByName_emb_cases [OF Some] show ?thesis
  proof
    assume "\<exists>i. p = [i] \<and> i < length (struct_fields (type_of v))"
    then obtain i where "p = [i]" "i < length (efields v)" by (auto simp: type_of_fields)
    with Some assms show ?thesis
      by (simp add: ValueFieldByName_emb_def FieldByIndex_def Field_e_def)
  next
    assume "\<exists>d. p \<in> set (promoted (Suc d) (type_of v) name)"
    then obtain d where d: "p \<in> set (promoted (Suc d) (type_of v) name)" by blast
    have "length p \<noteq> 1" using promoted_length [OF d] by simp
    moreover obtain w where "index_loop 0 v p = Inr w"
      using index_loop_promoted [OF d assms] by blast
    ultimately show ?thesis
      using Some assms by (simp add: ValueFieldByName_emb_def FieldByIndex_def)
  qed
qed

lemma id_loop_emb_succeeds:
  assumes "Kind_e v = KStruct" and "no_nil v"
  shows "\<exists>s. id_loop_emb v names = Inr s"
proof (induction names)
  case Nil
  then show ?case by simp
next
  case (Cons n names)
  obtain w where "ValueFieldByName_emb v n = Inr w"
    using ValueFieldByName_emb_succeeds [OF assms] by blast
  with Cons show ?case by auto
qed

text \<open>
  C10, as amended: the identifier-only renderer never returns an error. For an input
  that is not a struct after at most one pointer dereference (a collection, a nil
  pointer, a scalar, a nil interface) the extractor returns the empty string, and the
  renderer prints nothing and succeeds. On a struct it succeeds whenever no embedded
  pointer in it is nil, and so on every struct without embedded fields, where it is the
  renderer of the flat records.
\<close>

theorem C10_quiet_renderer:
  "(\<forall>msg. QuietFormat_emb d \<noteq> Inl (Error msg))
   \<and> (Kind_e (indirect_e d) \<noteq> KStruct
        \<longrightarrow> extractID_emb d = Inr '''' \<and> QuietFormat_emb d = Inr [])
   \<and> (no_nil (indirect_e d) \<longrightarrow> (\<exists>out. QuietFormat_emb d = Inr out))
   \<and> extractID_emb (ELeaf g) = Inr (extractID g)
   \<and> QuietFormat_emb (ELeaf g) = QuietFormat g"
proof (intro conjI impI allI)
  fix msg
  have "extractID_emb d \<noteq> Inl (Error msg)"
    using id_loop_emb_not_error
    by (simp add: extractID_emb_def Let_def del: id_loop_emb.simps)
  then show "QuietFormat_emb d \<noteq> Inl (Error msg)"
    by (auto simp: QuietFormat_emb_def split: sum.splits)
next
  assume "Kind_e (indirect_e d) \<noteq> KStruct"
  then show "extractID_emb d = Inr ''''"
    by (simp add: extractID_emb_def)
next
  assume "Kind_e (indirect_e d) \<noteq> KStruct"
  then show "QuietFormat_emb d = Inr []"
    by (simp add: QuietFormat_emb_def extractID_emb_def)
next
  assume n: "no_nil (indirect_e d)"
  show "\<exists>out. QuietFormat_emb d = Inr out"
  proof (cases "Kind_e (indirect_e d) = KStruct")
    case True
    from id_loop_emb_succeeds [OF True n] obtain s where
      "id_loop_emb (indirect_e d) [''ID'', ''Id'', ''id''] = Inr s" by blast
    with True show ?thesis
      by (simp add: QuietFormat_emb_def extractID_emb_def del: id_loop_emb.simps)
  next
    case False
    then show ?thesis by (simp add: QuietFormat_emb_def extractID_emb_def)
  qed
next
  show "extractID_emb (ELeaf g) = Inr (extractID g)" by (rule extractID_emb_flat)
next
  show "QuietFormat_emb (ELeaf g) = QuietFormat g"
    by (simp add: QuietFormat_emb_def QuietFormat_def extractID_emb_flat Let_def)
qed

text \<open>
  A collection, a nil pointer, a scalar and a nil interface print nothing; a record
  whose embedded pointer is set prints the promoted identifier.
\<close>

theorem C10_quiet_renderer_witness:
  "QuietFormat_emb (ELeaf two_charges) = Inr []
   \<and> QuietFormat_emb (ENil base_type) = Inr []
   \<and> QuietFormat_emb (ELeaf (VInt KInt 7)) = Inr []
   \<and> QuietFormat_emb (ELeaf VInvalid) = Inr []
   \<and> no_nil (indirect_e set_base_record)
   \<and> (\<exists>out. QuietFormat_emb set_base_record = Inr out)
   \<and> QuietFormat_emb (ELeaf (charge ''ch_1'' 1000 ''succeeded'')) = Inr [Println ''ch_1'']"
proof -
  have n: "no_nil (indirect_e set_base_record)" by (simp add: set_base_record_def)
  have q: "QuietFormat (charge ''ch_1'' 1000 ''succeeded'') = Inr [Println ''ch_1'']"
    by code_simp
  show ?thesis
    using n q
      C10_quiet_renderer [of "ELeaf two_charges"]
      C10_quiet_renderer [of "ENil base_type"]
      C10_quiet_renderer [of "ELeaf (VInt KInt 7)"]
      C10_quiet_renderer [of "ELeaf VInvalid"]
      C10_quiet_renderer [of set_base_record]
      C10_quiet_renderer [of _ "charge ''ch_1'' 1000 ''succeeded''"]
    by (simp add: two_charges_def)
qed

text \<open>
  The counterexample to C10 as stated: \<^verbatim>\<open>X{}\<close> is a record whose identifier would be
  promoted from the embedded \<^verbatim>\<open>*Base\<close>; the pointer is nil, \<^verbatim>\<open>FieldByName("ID")\<close>
  panics, and the renderer does not return.
\<close>

theorem C10_nil_embedded_counterexample:
  "Kind_e nil_base_record = KStruct
   \<and> FieldByName_emb (type_of nil_base_record) ''ID'' = Some [0, 0]
   \<and> QuietFormat_emb nil_base_record = Inl Panic"
  by code_simp


end
